theory Spec2Isabelle
  imports Complex_Main
begin

section \<open>Vectors and matrices\<close>

text \<open>
  A PETSc vector is modelled as the list of its entries, over the real numbers: the
  development is about the algorithm the code runs, in exact arithmetic. Every vector the
  code combines has the layout of the one it was duplicated from; where a statement
  depends on that, the lengths are hypotheses.
\<close>

type_synonym vec = "real list"

text \<open>A sequential (AIJ) matrix, as the list of its rows.\<close>

type_synonym mat = "real list list"

definition vset :: "real \<Rightarrow> vec \<Rightarrow> vec" where
  \<comment> \<open>\<open>y.set(c)\<close>\<close>
  "vset c y = map (\<lambda>_. c) y"

definition duplicate :: "vec \<Rightarrow> vec" where
  \<comment> \<open>\<open>x.duplicate()\<close>: a new vector of the layout of \<open>x\<close>; the code never reads its
      entries before writing them\<close>
  "duplicate x = vset 0 x"

definition dot :: "vec \<Rightarrow> vec \<Rightarrow> real" where
  \<comment> \<open>\<open>x.dot(y)\<close>\<close>
  "dot x y = sum_list (map2 (*) x y)"

definition vscale :: "real \<Rightarrow> vec \<Rightarrow> vec" where
  \<comment> \<open>\<open>c * x\<close>\<close>
  "vscale c x = map ((*) c) x"

definition vneg :: "vec \<Rightarrow> vec" where
  \<comment> \<open>\<open>-x\<close>\<close>
  "vneg x = map uminus x"

definition vadd :: "vec \<Rightarrow> vec \<Rightarrow> vec" where
  \<comment> \<open>\<open>y += z\<close>, the new \<open>y\<close>\<close>
  "vadd y z = map2 (+) y z"

definition vsub :: "vec \<Rightarrow> vec \<Rightarrow> vec" where
  "vsub y z = map2 (-) y z"

definition vmul :: "vec \<Rightarrow> vec \<Rightarrow> vec" where
  \<comment> \<open>\<open>x * y\<close>, entry by entry\<close>
  "vmul x y = map2 (*) x y"

definition vdiv :: "vec \<Rightarrow> vec \<Rightarrow> vec" where
  \<comment> \<open>\<open>x / y\<close>, entry by entry\<close>
  "vdiv x y = map2 (/) x y"

definition vrecip :: "vec \<Rightarrow> vec" where
  \<comment> \<open>\<open>1 / x\<close>, entry by entry\<close>
  "vrecip x = map (\<lambda>a. 1 / a) x"

definition axpy :: "real \<Rightarrow> vec \<Rightarrow> vec \<Rightarrow> vec" where
  \<comment> \<open>\<open>y.axpy(a, x)\<close>, the new \<open>y\<close>: \<open>y + a x\<close>\<close>
  "axpy a x y = vadd y (vscale a x)"

definition mat_mult :: "mat \<Rightarrow> vec \<Rightarrow> vec" where
  \<comment> \<open>\<open>A.mult(x, y)\<close> of an assembled matrix, the new \<open>y\<close>\<close>
  "mat_mult A x = map (\<lambda>row. dot row x) A"

definition getDiagonal :: "mat \<Rightarrow> vec" where
  "getDiagonal A = map (\<lambda>i. A ! i ! i) [0..<length A]"

definition diagonalScale :: "vec \<Rightarrow> vec \<Rightarrow> mat \<Rightarrow> mat" where
  \<comment> \<open>\<open>A.diagonalScale(L, R)\<close>: entry \<open>(i, j)\<close> becomes \<open>L i * A i j * R j\<close>\<close>
  "diagonalScale L R A = map2 (\<lambda>l row. map2 (\<lambda>a r. l * a * r) row R) L A"

text \<open>The sum of a list of vectors of layout \<open>n\<close>, and orthonormal lists of vectors.\<close>

definition vsum :: "nat \<Rightarrow> vec list \<Rightarrow> vec" where
  "vsum n vs = foldl vadd (replicate n 0) vs"


section \<open>The matrix-free operators of the algebraic splitting\<close>

subsection \<open>\<open>projVnegs_ctx\<close> and \<open>projVposs_ctx\<close>\<close>

record projVnegs_ctx =
  pn_Vnegs :: "vec list"

definition projVnegs_ctx_mult :: "projVnegs_ctx \<Rightarrow> vec \<Rightarrow> vec \<Rightarrow> vec" where
  \<comment> \<open>\<open>y.set(0)\<close>, then \<open>y.axpy(x.dot(vec), vec)\<close> for every \<open>vec\<close> of \<open>Vnegs\<close> in turn\<close>
  "projVnegs_ctx_mult c x y =
     foldl (\<lambda>y (i, vec). axpy (dot x vec) vec y) (vset 0 y) (enumerate 0 (pn_Vnegs c))"

record projVposs_ctx =
  pp_projVnegs :: projVnegs_ctx

definition projVposs_ctx_mult :: "projVposs_ctx \<Rightarrow> vec \<Rightarrow> vec \<Rightarrow> vec" where
  \<comment> \<open>\<open>self.projVnegs(-x, y)\<close> is the matrix's \<open>mult\<close>; then \<open>y.axpy(1., x)\<close>\<close>
  "projVposs_ctx_mult c x y = axpy 1 x (projVnegs_ctx_mult (pp_projVnegs c) (vneg x) y)"

subsection \<open>\<open>invAposs_ctx\<close>\<close>

text \<open>
  \<open>Bs_ksp\<close> is the direct solver set up on \<open>Bs\<close> (the factorization is the library's):
  \<open>Bs_ksp.solve(b, x)\<close> is a function from the right-hand side to the solution.
\<close>

record invAposs_ctx =
  ia_Bs_ksp :: "vec \<Rightarrow> vec"
  ia_projVposs :: projVposs_ctx

definition invAposs_ctx_apply :: "invAposs_ctx \<Rightarrow> vec \<Rightarrow> vec \<Rightarrow> vec" where
  "invAposs_ctx_apply c x y =
     (let xtemp1 = duplicate y;
          xtemp2 = duplicate y;
          xtemp1 = projVposs_ctx_mult (ia_projVposs c) x xtemp1;
          xtemp2 = ia_Bs_ksp c xtemp1
      in projVposs_ctx_mult (ia_projVposs c) xtemp2 y)"

definition invAposs_ctx_mult :: "invAposs_ctx \<Rightarrow> vec \<Rightarrow> vec \<Rightarrow> vec" where
  "invAposs_ctx_mult c x y = invAposs_ctx_apply c x y"

subsection \<open>The eigenpairs of \<open>Bs\<close> and its negative part\<close>

text \<open>
  The solved eigensolver, as the code reads it: the number of converged pairs, and the
  \<open>i\<close>-th eigenvalue and eigenvector. The solver itself is the library's.
\<close>

record eps =
  getConverged :: nat
  getEigenvalue :: "nat \<Rightarrow> complex"
  getEigenvector :: "nat \<Rightarrow> vec"

text \<open>The lists the loop over the converged pairs fills (lines 361 to 372).\<close>

record negpart =
  np_Dnegs :: "real list"
  np_Dposs :: "real list"
  np_Vnegs :: "vec list"
  np_DVnegs :: "vec list"
  np_invmusVnegs :: "vec list"

definition negpart_empty :: negpart where
  "negpart_empty = \<lparr>np_Dnegs = [], np_Dposs = [], np_Vnegs = [], np_DVnegs = [], np_invmusVnegs = []\<rparr>"

definition negpart_step :: "eps \<Rightarrow> vec \<Rightarrow> negpart \<Rightarrow> nat \<Rightarrow> negpart" where
  \<comment> \<open>one turn of the loop; \<open>Vnegs[-1]\<close> is the vector \<open>getEigenvector\<close> has just filled\<close>
  "negpart_step e invmus st i =
     (let tempscalar = Re (getEigenvalue e i) in
      if tempscalar < 0 then
        (let Dnegs = np_Dnegs st @ [-1 * tempscalar];
             Vnegs = np_Vnegs st @ [getEigenvector e i];
             DVnegs = np_DVnegs st @ [vscale (last Dnegs) (last Vnegs)];
             invmusVnegs = np_invmusVnegs st @ [vmul invmus (last Vnegs)]
         in st\<lparr>np_Dnegs := Dnegs, np_Vnegs := Vnegs, np_DVnegs := DVnegs,
                np_invmusVnegs := invmusVnegs\<rparr>)
      else st\<lparr>np_Dposs := np_Dposs st @ [tempscalar]\<rparr>)"

definition negpart_of :: "eps \<Rightarrow> vec \<Rightarrow> negpart" where
  \<comment> \<open>\<open>for i in range(eps.getConverged())\<close>\<close>
  "negpart_of e invmus = foldl (negpart_step e invmus) negpart_empty [0..<getConverged e]"

subsection \<open>\<open>Anegs_ctx\<close> and \<open>Aposs_ctx\<close>\<close>

record Anegs_ctx =
  an_Vnegs :: "vec list"
  an_DVnegs :: "vec list"
  an_gamma :: vec

definition Anegs_ctx_init :: "vec list \<Rightarrow> vec list \<Rightarrow> Anegs_ctx" where
  \<comment> \<open>\<open>gamma\<close> is a scratch vector of size \<open>len(Vnegs)\<close>\<close>
  "Anegs_ctx_init Vnegs DVnegs =
     \<lparr>an_Vnegs = Vnegs, an_DVnegs = DVnegs, an_gamma = replicate (length Vnegs) 0\<rparr>"

definition Anegs_ctx_mult :: "Anegs_ctx \<Rightarrow> vec \<Rightarrow> vec \<Rightarrow> vec \<times> Anegs_ctx" where
  \<comment> \<open>the new \<open>y\<close>, and the context with its scratch vector as the call leaves it\<close>
  "Anegs_ctx_mult c x y =
     (let y = vset 0 y;
          gamma = foldl (\<lambda>g (i, vec). g[i := dot x vec]) (an_gamma c) (enumerate 0 (an_DVnegs c));
          y = foldl (\<lambda>y (i, vec). axpy (gamma ! i) vec y) y (enumerate 0 (an_Vnegs c))
      in (y, c\<lparr>an_gamma := gamma\<rparr>))"

record Aposs_ctx =
  ap_Bs :: mat
  ap_Anegs :: Anegs_ctx

definition Aposs_ctx_mult :: "Aposs_ctx \<Rightarrow> vec \<Rightarrow> vec \<Rightarrow> vec \<times> Aposs_ctx" where
  "Aposs_ctx_mult c x y =
     (let xtemp = duplicate x;
          (xtemp, an) = Anegs_ctx_mult (ap_Anegs c) x xtemp;
          y = mat_mult (ap_Bs c) x;
          y = vadd y xtemp
      in (y, c\<lparr>ap_Anegs := an\<rparr>))"

text \<open>The indices of the converged pairs whose eigenvalue is negative.\<close>

definition negative_pairs :: "eps \<Rightarrow> nat list" where
  "negative_pairs e = filter (\<lambda>i. Re (getEigenvalue e i) < 0) [0..<getConverged e]"

text \<open>
  The specification's negative part: \<open>\<Sum>\<^sub>i (x \<cdot> v\<^sub>i) \<lambda>\<^sub>i v\<^sub>i\<close> over the negative pairs, \<open>\<lambda>\<^sub>i\<close> the
  magnitude of the eigenvalue.
\<close>

definition Anegs_spec :: "eps \<Rightarrow> nat \<Rightarrow> vec \<Rightarrow> vec" where
  \<comment> \<open>\<open>n\<close> is the layout of the result\<close>
  "Anegs_spec e n x =
     vsum n
       (map (\<lambda>i. vscale (dot x (getEigenvector e i) * \<bar>Re (getEigenvalue e i)\<bar>) (getEigenvector e i))
         (negative_pairs e))"

text \<open>The two operators as \<open>PCNew.__init__\<close> builds them (lines 403 to 409).\<close>

definition PCNew_Anegs :: "eps \<Rightarrow> vec \<Rightarrow> Anegs_ctx" where
  "PCNew_Anegs e invmus =
     Anegs_ctx_init (np_Vnegs (negpart_of e invmus)) (np_DVnegs (negpart_of e invmus))"






text \<open>
  The specification's projections, written as it writes them: \<open>\<Sum>\<^sub>i (x \<cdot> v\<^sub>i) v\<^sub>i\<close> and its
  complement \<open>x - \<Sum>\<^sub>i (x \<cdot> v\<^sub>i) v\<^sub>i\<close>.
\<close>

definition projVnegs_spec :: "vec list \<Rightarrow> vec \<Rightarrow> vec" where
  "projVnegs_spec V x = vsum (length x) (map (\<lambda>v. vscale (dot x v) v) V)"

definition projVposs_spec :: "vec list \<Rightarrow> vec \<Rightarrow> vec" where
  "projVposs_spec V x = vsub x (projVnegs_spec V x)"

section \<open>The preconditioner and its application\<close>

subsection \<open>The exchange between local and global vectors\<close>

text \<open>
  The processes are seen together: process \<open>s\<close> owns the index set \<open>is_A\<close> that sends its
  local degree of freedom \<open>i\<close> to a global one, and one local vector per process stands
  for a sequential vector of the code. The index sets name entries of the global vector.
\<close>

type_synonym lgmap = "nat list"

definition scatter_reverse :: "lgmap list \<Rightarrow> vec \<Rightarrow> vec list" where
  \<comment> \<open>\<open>scatter_l2g(xg, local, INSERT_VALUES, SCATTER_REVERSE)\<close>: the new local vectors\<close>
  "scatter_reverse idxs xg = map (\<lambda>idx. map (\<lambda>g. xg ! g) idx) idxs"

definition add_local :: "lgmap \<Rightarrow> vec \<Rightarrow> vec \<Rightarrow> vec" where
  \<comment> \<open>the entries of one process added into the global vector\<close>
  "add_local idx loc yg = foldl (\<lambda>y (g, v). y[g := y ! g + v]) yg (zip idx loc)"

definition scatter_add :: "lgmap list \<Rightarrow> vec list \<Rightarrow> vec \<Rightarrow> vec" where
  \<comment> \<open>\<open>scatter_l2g(local, yg, ADD_VALUES)\<close>: the new global vector\<close>
  "scatter_add idxs locs yg = foldl (\<lambda>y (idx, loc). add_local idx loc y) yg (zip idxs locs)"

subsection \<open>The objects\<close>

text \<open>
  The coarse operators are built by \<open>coarse_operators\<close> of \<open>projection.py\<close> and are
  parameters here: \<open>project\<close> and \<open>project_transpose\<close> give the new value of the vector
  they work on in place, \<open>coarse_init\<close> returns a new vector.
\<close>

record coarse_operators =
  project :: "vec \<Rightarrow> vec"
  project_transpose :: "vec \<Rightarrow> vec"
  coarse_init :: "vec \<Rightarrow> vec"

text \<open>
  The fields of the preconditioner that its application reads. \<open>ksp_Atildes\<close> holds the
  local solve of each process.
\<close>

record pc =
  projCS :: bool
  addCS :: bool
  proj :: coarse_operators
  scatter_l2g :: "lgmap list"
  ksp_Atildes :: "(vec \<Rightarrow> vec) list"

text \<open>
  The state the application changes: the global vectors, each an object with an address
  (two names may stand for one object), the addresses below \<open>nxt\<close> being in use; the work
  vectors \<open>works_1\<close> and \<open>works_2\<close> of each process; and the lines printed.
\<close>

type_synonym addr = nat

record world =
  heap :: "addr \<Rightarrow> vec"
  nxt :: addr
  works_1 :: "vec list"
  works_2 :: "vec list"
  stdout :: "string list"

definition vec_copy :: "addr \<Rightarrow> world \<Rightarrow> addr \<times> world" where
  \<comment> \<open>\<open>x.copy()\<close>: a new object with the entries of \<open>x\<close>\<close>
  "vec_copy a w = (nxt w, w\<lparr>heap := (heap w)(nxt w := heap w a), nxt := Suc (nxt w)\<rparr>)"

definition in_place :: "(vec \<Rightarrow> vec) \<Rightarrow> addr \<Rightarrow> world \<Rightarrow> world" where
  \<comment> \<open>an operation that overwrites the vector at \<open>a\<close>\<close>
  "in_place f a w = w\<lparr>heap := (heap w)(a := f (heap w a))\<rparr>"

definition solve_all :: "(vec \<Rightarrow> vec) list \<Rightarrow> vec list \<Rightarrow> vec list" where
  \<comment> \<open>\<open>ksp_Atildes.solve(works_1, works_2)\<close> on every process: the new \<open>works_2\<close>\<close>
  "solve_all ksps bs = map2 (\<lambda>solve b. solve b) ksps bs"

subsection \<open>\<open>PCBNN.mult\<close>, \<open>PCBNN.apply\<close> and \<open>PCBNN.MP_mult\<close>\<close>

definition PCBNN_mult :: "pc \<Rightarrow> addr \<Rightarrow> addr \<Rightarrow> world \<Rightarrow> world" where
  "PCBNN_mult self x y w =
     (let (xd, w) = vec_copy x w;
          w = (if projCS self = True then in_place (project_transpose (proj self)) xd w else w);
          w = w\<lparr>works_1 := scatter_reverse (scatter_l2g self) (heap w xd)\<rparr>;
          w = w\<lparr>works_2 := solve_all (ksp_Atildes self) (works_1 w)\<rparr>;
          w = in_place (vset 0) y w;
          w = in_place (scatter_add (scatter_l2g self) (works_2 w)) y w;
          w = (if projCS self = True then in_place (project (proj self)) y w else w)
      in if addCS self = True then
           (let (xd, w) = vec_copy x w;
                ytild = coarse_init (proj self) (heap w xd)
            in in_place (\<lambda>y. vadd y ytild) y w)
         else w)"

definition PCBNN_apply :: "pc \<Rightarrow> 'p \<Rightarrow> addr \<Rightarrow> addr \<Rightarrow> world \<Rightarrow> world" where
  "PCBNN_apply self pc x y w = PCBNN_mult self x y w"

datatype py_error = IndexError

fun MP_loop :: "pc \<Rightarrow> addr list \<Rightarrow> nat list \<Rightarrow> world \<Rightarrow> py_error + world" where
  "MP_loop self y [] w = Inr w"
| "MP_loop self y (i # rest) w =
     (let w = w\<lparr>works_1 := map (vset 0) (works_1 w)\<rparr>;
          w = w\<lparr>works_1 := (works_1 w)[i := works_2 w ! i]\<rparr>
      in if i < length y then
           (let w = in_place (vset 0) (y ! i) w;
                w = in_place (scatter_add (scatter_l2g self) (works_1 w)) (y ! i) w;
                w = in_place (project (proj self)) (y ! i) w
            in MP_loop self y rest w)
         else Inl IndexError)"

definition PCBNN_MP_mult :: "pc \<Rightarrow> addr \<Rightarrow> addr list \<Rightarrow> world \<Rightarrow> py_error + world" where
  \<comment> \<open>\<open>y\<close> is a list of vectors; the loop runs over the ranks, and on the process of rank
      \<open>i\<close> the work vector becomes a copy of the local solution\<close>
  "PCBNN_MP_mult self x y w =
     (let w = w\<lparr>works_1 := scatter_reverse (scatter_l2g self) (heap w x)\<rparr>;
          w = w\<lparr>works_2 := solve_all (ksp_Atildes self) (works_1 w)\<rparr>
      in MP_loop self y [0..<length (scatter_l2g self)] w)"

subsection \<open>\<open>PCNew.mult\<close>, \<open>PCNew.apply\<close> and \<open>PCNew.MP_mult\<close>\<close>

definition PCNew_mult :: "pc \<Rightarrow> addr \<Rightarrow> addr \<Rightarrow> world \<Rightarrow> world" where
  "PCNew_mult self x y w =
     (let (xd, w) = vec_copy x w;
          w = (if projCS self = True then in_place (project_transpose (proj self)) xd w else w);
          w = w\<lparr>works_1 := scatter_reverse (scatter_l2g self) (heap w xd)\<rparr>;
          w = w\<lparr>works_2 := solve_all (ksp_Atildes self) (works_1 w)\<rparr>;
          w = in_place (vset 0) y w;
          w = in_place (scatter_add (scatter_l2g self) (works_2 w)) y w;
          w = (if projCS self = True then in_place (project (proj self)) y w else w)
      in if addCS self = True then
           (let (xd, w) = vec_copy x w;
                ytild = coarse_init (proj self) (heap w xd)
            in in_place (\<lambda>y. vadd y ytild) y w)
         else w)"

definition PCNew_apply :: "pc \<Rightarrow> 'p \<Rightarrow> addr \<Rightarrow> addr \<Rightarrow> world \<Rightarrow> world" where
  "PCNew_apply self pc x y w = PCNew_mult self x y w"

definition PCNew_MP_mult :: "pc \<Rightarrow> addr \<Rightarrow> addr list \<Rightarrow> world \<Rightarrow> world" where
  \<comment> \<open>\<open>print('not implemented')\<close>, on every process\<close>
  "PCNew_MP_mult self x y w =
     w\<lparr>stdout := stdout w @ replicate (length (scatter_l2g self)) ''not implemented''\<rparr>"

text \<open>
  The application as the specification lists it, in six steps, from the value of \<open>x\<close> to
  the value of \<open>y\<close>; \<open>n\<close> is the layout of \<open>y\<close>.
\<close>

definition apply_spec :: "pc \<Rightarrow> vec \<Rightarrow> nat \<Rightarrow> vec" where
  "apply_spec self x n =
     (let x1 = (if projCS self then project_transpose (proj self) x else x);
          local = scatter_reverse (scatter_l2g self) x1;
          solution = solve_all (ksp_Atildes self) local;
          y = scatter_add (scatter_l2g self) solution (replicate n 0);
          y = (if projCS self then project (proj self) y else y)
      in if addCS self then vadd y (coarse_init (proj self) x) else y)"

section \<open>The construction of \<open>PCNew\<close>\<close>

subsection \<open>Options and printed lines\<close>

text \<open>The options database, and the two reads of it the constructors make.\<close>

record options =
  opt_bool :: "string \<Rightarrow> bool option"
  opt_int :: "string \<Rightarrow> int option"

definition getBool :: "options \<Rightarrow> string \<Rightarrow> bool \<Rightarrow> bool" where
  "getBool OptDB name dflt = (case opt_bool OptDB name of None \<Rightarrow> dflt | Some b \<Rightarrow> b)"









subsection \<open>The local operators and solvers\<close>

text \<open>
  \<open>scaledmats_ctx(mats, musl, musr)\<close> wraps one of the two matrix-free operators, \<open>Aposs\<close>
  or \<open>invAposs\<close>.
\<close>

datatype python_mat = Mat_Aposs Aposs_ctx | Mat_invAposs invAposs_ctx

record scaledmats_ctx =
  sm_mats :: python_mat
  sm_musl :: vec
  sm_musr :: vec

definition scaledmats_ctx_mult :: "scaledmats_ctx \<Rightarrow> vec \<Rightarrow> vec \<Rightarrow> vec \<times> scaledmats_ctx" where
  \<comment> \<open>\<open>xtemp = x.copy()*musr\<close>, \<open>mats.mult(xtemp, y)\<close>, \<open>y *= musl\<close>; the context comes back
      with the scratch vector of \<open>Anegs\<close> as the call leaves it\<close>
  "scaledmats_ctx_mult c x y =
     (let xtemp = vmul x (sm_musr c) in
      case sm_mats c of
        Mat_Aposs a \<Rightarrow>
          (let (y, a) = Aposs_ctx_mult a xtemp y in (vmul y (sm_musl c), c\<lparr>sm_mats := Mat_Aposs a\<rparr>))
      | Mat_invAposs ia \<Rightarrow> (vmul (invAposs_ctx_mult ia xtemp y) (sm_musl c), c))"

definition scaledmats_ctx_apply :: "scaledmats_ctx \<Rightarrow> vec \<Rightarrow> vec \<Rightarrow> vec \<times> scaledmats_ctx" where
  "scaledmats_ctx_apply c x y = scaledmats_ctx_mult c x y"




subsection \<open>\<open>PCNew.__init__\<close>, from the solve of the eigenproblem on\<close>

text \<open>
  What the constructor takes from outside the file: the rank of the process, the solved
  eigensolver, the direct solver set up on \<open>Bs\<close>, and the builders \<open>minimal_V0\<close>, \<open>GenEO_V0\<close>
  (each through its \<open>V0s\<close>) and \<open>coarse_operators\<close> of \<open>projection.py\<close>.
\<close>









section \<open>The scaling of the local matrix in \<open>PCBNN.__init__\<close>\<close>

text \<open>
  Lines 86 to 91, for all the processes together: every local vector is set to one, the
  global vector of \<open>N\<close> entries to zero, the local vectors are added into the global one,
  and the global one is read back into the local ones.
\<close>

definition PCBNN_vglobal :: "lgmap list \<Rightarrow> nat \<Rightarrow> vec" where
  "PCBNN_vglobal idxs N =
     scatter_add idxs (map (\<lambda>idx. vset 1 (replicate (length idx) 0)) idxs) (vset 0 (replicate N 0))"

definition PCBNN_vlocal :: "lgmap list \<Rightarrow> nat \<Rightarrow> vec list" where
  "PCBNN_vlocal idxs N = scatter_reverse idxs (PCBNN_vglobal idxs N)"

definition PCBNN_mult_max :: "lgmap list \<Rightarrow> nat \<Rightarrow> real" where
  \<comment> \<open>\<open>NULL, mult_max = vglobal.max()\<close>\<close>
  "PCBNN_mult_max idxs N = Max (set (PCBNN_vglobal idxs N))"

definition PCBNN_kscaling :: "options \<Rightarrow> bool" where
  "PCBNN_kscaling OptDB = getBool OptDB ''PCBNN_kscaling'' True"

definition PCBNN_scaled_Ms :: "bool \<Rightarrow> mat \<Rightarrow> mat \<Rightarrow> vec \<Rightarrow> mat" where
  \<comment> \<open>lines 94 to 99 on one process: the new \<open>Ms\<close>\<close>
  "PCBNN_scaled_Ms kscaling Ms As vlocal =
     (if kscaling = False then diagonalScale vlocal vlocal Ms
      else (let v1 = getDiagonal As;
                v2 = getDiagonal Ms
            in diagonalScale (vdiv v1 v2) (vdiv v1 v2) Ms))"

text \<open>The number of subdomains that own the global degree of freedom \<open>g\<close>.\<close>

definition owners :: "lgmap list \<Rightarrow> nat \<Rightarrow> nat" where
  "owners idxs g = length (filter (\<lambda>idx. g \<in> set idx) idxs)"

text \<open>The multiplicity scaling as the specification words it: by \<open>1 / multiplicity\<close>.\<close>

definition multiplicity_scaling_spec :: "mat \<Rightarrow> vec \<Rightarrow> mat" where
  "multiplicity_scaling_spec Ms multiplicity =
     diagonalScale (vrecip multiplicity) (vrecip multiplicity) Ms"

section \<open>Vector algebra\<close>

lemma length_vset [simp]: "length (vset c y) = length y"
  by (simp add: vset_def)

lemma length_duplicate [simp]: "length (duplicate y) = length y"
  by (simp add: duplicate_def)

lemma length_vscale [simp]: "length (vscale c x) = length x"
  by (simp add: vscale_def)

lemma length_vneg [simp]: "length (vneg x) = length x"
  by (simp add: vneg_def)

lemma length_vadd [simp]: "length (vadd x y) = min (length x) (length y)"
  by (simp add: vadd_def)

lemma length_vsub [simp]: "length (vsub x y) = min (length x) (length y)"
  by (simp add: vsub_def)

lemma length_axpy [simp]: "length (axpy a x y) = min (length y) (length x)"
  by (simp add: axpy_def)

lemma dot_Nil [simp]: "dot [] w = 0" "dot v [] = 0"
  by (simp_all add: dot_def)

lemma dot_Cons [simp]: "dot (a # v) (b # w) = a * b + dot v w"
  by (simp add: dot_def)

lemma dot_commute: "dot a b = dot b a"
proof (induction a arbitrary: b)
  case Nil
  then show ?case by simp
next
  case (Cons x a)
  then show ?case by (cases b) (simp_all add: mult.commute)
qed

lemma dot_vscale_left [simp]: "dot (vscale c a) w = c * dot a w"
proof (induction a arbitrary: w)
  case Nil
  then show ?case by (simp add: vscale_def)
next
  case (Cons x a)
  then show ?case by (cases w) (simp_all add: vscale_def algebra_simps)
qed

lemma dot_vneg_left [simp]: "dot (vneg a) w = - dot a w"
proof (induction a arbitrary: w)
  case Nil
  then show ?case by (simp add: vneg_def)
next
  case (Cons x a)
  then show ?case by (cases w) (simp_all add: vneg_def)
qed


lemma dot_zeros [simp]: "dot (replicate n 0) w = 0"
proof (induction n arbitrary: w)
  case 0
  then show ?case by simp
next
  case (Suc n)
  then show ?case by (cases w) simp_all
qed

lemma vset_zero: "vset 0 y = replicate (length y) 0"
  by (simp add: vset_def map_replicate_const)

lemma foldl_enumerate: "foldl (\<lambda>y (i, vec). f vec y) z (enumerate k vs) = foldl (\<lambda>y vec. f vec y) z vs"
  by (induction vs arbitrary: z k) simp_all





lemma projVnegs_ctx_mult_fold:
  "projVnegs_ctx_mult c x y =
     foldl (\<lambda>y v. axpy (dot x v) v y) (replicate (length y) 0) (pn_Vnegs c)"
  by (simp add: projVnegs_ctx_mult_def foldl_enumerate vset_zero)


lemma foldl_axpy_vadd:
  "foldl (\<lambda>y v. axpy (c v) v y) z vs = foldl vadd z (map (\<lambda>v. vscale (c v) v) vs)"
  by (induction vs arbitrary: z) (simp_all add: axpy_def)

lemma axpy_vneg: "axpy (- a) v (vneg z) = vneg (axpy a v z)"
proof (induction z arbitrary: v)
  case Nil
  then show ?case by (simp add: axpy_def vadd_def vneg_def vscale_def)
next
  case (Cons b z)
  from Cons.IH show ?case
    by (cases v) (simp_all add: axpy_def vadd_def vneg_def vscale_def)
qed

lemma foldl_axpy_vneg:
  "foldl (\<lambda>y v. axpy (- c v) v y) (vneg z) vs = vneg (foldl (\<lambda>y v. axpy (c v) v y) z vs)"
  by (induction vs arbitrary: z) (simp_all add: axpy_vneg)

lemma vneg_zeros [simp]: "vneg (replicate n 0) = replicate n 0"
  by (simp add: vneg_def)

lemma vadd_vneg_left: "vadd (vneg p) x = vsub x p"
proof (induction p arbitrary: x)
  case Nil
  then show ?case by (simp add: vadd_def vsub_def vneg_def)
next
  case (Cons a p)
  from Cons.IH show ?case
    by (cases x) (simp_all add: vadd_def vsub_def vneg_def)
qed

lemma vscale_one [simp]: "vscale 1 x = x"
  by (induction x) (simp_all add: vscale_def)





lemma projVnegs_neg: "projVnegs_ctx_mult c (vneg x) y = vneg (projVnegs_ctx_mult c x y)"
proof -
  have "projVnegs_ctx_mult c (vneg x) y =
        foldl (\<lambda>y v. axpy (- dot x v) v y) (vneg (replicate (length y) 0)) (pn_Vnegs c)"
    by (simp add: projVnegs_ctx_mult_fold)
  then show ?thesis
    by (simp only: foldl_axpy_vneg projVnegs_ctx_mult_fold)
qed

lemma projVposs_ctx_mult_vsub:
  "projVposs_ctx_mult cp x y = vsub x (projVnegs_ctx_mult (pp_projVnegs cp) x y)"
  by (simp add: projVposs_ctx_mult_def projVnegs_neg axpy_def vadd_vneg_left)







lemma projVnegs_ctx_mult_spec:
  "length y = length x \<Longrightarrow> projVnegs_ctx_mult c x y = projVnegs_spec (pn_Vnegs c) x"
  by (simp add: projVnegs_ctx_mult_fold projVnegs_spec_def vsum_def foldl_axpy_vadd)

lemma projVposs_ctx_mult_spec:
  "length y = length x \<Longrightarrow>
   projVposs_ctx_mult cp x y = projVposs_spec (pn_Vnegs (pp_projVnegs cp)) x"
  by (simp add: projVposs_ctx_mult_vsub projVposs_spec_def projVnegs_ctx_mult_spec)

section \<open>The projections onto the negative eigenvectors and their complement\<close>



section \<open>The inverse of the positive part\<close>

text \<open>
  Claim C7. \<open>invAposs_ctx.apply\<close> computes the composition: the complement projection
  \<open>x - \<Sum>\<^sub>i (x \<cdot> v\<^sub>i) v\<^sub>i\<close>, then the solve with the factorization of \<open>Bs\<close>, then the complement
  projection again; \<open>invAposs_ctx.mult\<close> computes the same function. The output vector has
  the layout of \<open>x\<close>, and so has the solution the solver returns.
\<close>

theorem invAposs_ctx_projected_solve:
  assumes "length y = length x"
    and "length (ia_Bs_ksp c (projVposs_spec (pn_Vnegs (pp_projVnegs (ia_projVposs c))) x)) = length y"
  shows "invAposs_ctx_apply c x y
           = projVposs_spec (pn_Vnegs (pp_projVnegs (ia_projVposs c)))
               (ia_Bs_ksp c (projVposs_spec (pn_Vnegs (pp_projVnegs (ia_projVposs c))) x))
       \<and> invAposs_ctx_mult c x y = invAposs_ctx_apply c x y"
proof -
  let ?V = "pn_Vnegs (pp_projVnegs (ia_projVposs c))"
  have a: "projVposs_ctx_mult (ia_projVposs c) x (duplicate y) = projVposs_spec ?V x"
    by (rule projVposs_ctx_mult_spec) (simp add: assms(1))
  have b: "projVposs_ctx_mult (ia_projVposs c) (ia_Bs_ksp c (projVposs_spec ?V x)) y
           = projVposs_spec ?V (ia_Bs_ksp c (projVposs_spec ?V x))"
    by (rule projVposs_ctx_mult_spec) (simp add: assms(2))
  show ?thesis
    by (simp add: invAposs_ctx_apply_def invAposs_ctx_mult_def Let_def a b)
qed

theorem invAposs_ctx_projected_solve_witness:
  "invAposs_ctx_apply
     \<lparr>ia_Bs_ksp = map (\<lambda>a. a / 2), ia_projVposs = \<lparr>pp_projVnegs = \<lparr>pn_Vnegs = [[0, 1]]\<rparr>\<rparr>\<rparr>
     [4, 6] [9, 9] = [2, 0]
   \<and> invAposs_ctx_mult
     \<lparr>ia_Bs_ksp = map (\<lambda>a. a / 2), ia_projVposs = \<lparr>pp_projVnegs = \<lparr>pn_Vnegs = [[0, 1]]\<rparr>\<rparr>\<rparr>
     [4, 6] [9, 9] = [2, 0]"
proof -
  have s: "projVposs_spec [[0, 1]] [4, 6] = [4, 0]" "projVposs_spec [[0, 1]] [2, 0] = [2, 0]"
    by (simp_all add: projVposs_spec_def projVnegs_spec_def vsum_def vsub_def vadd_def
        vscale_def dot_def)
  from invAposs_ctx_projected_solve
    [of "[9, 9]" "[4, 6]"
      "\<lparr>ia_Bs_ksp = map (\<lambda>a. a / 2), ia_projVposs = \<lparr>pp_projVnegs = \<lparr>pn_Vnegs = [[0, 1]]\<rparr>\<rparr>\<rparr>"]
  show ?thesis by (simp add: s)
qed

section \<open>The negative part of \<open>Bs\<close>\<close>

lemma negpart_foldl:
  "foldl (negpart_step e invmus) st is =
     st\<lparr>np_Dnegs := np_Dnegs st @ map (\<lambda>i. - Re (getEigenvalue e i)) (filter (\<lambda>i. Re (getEigenvalue e i) < 0) is),
        np_Dposs := np_Dposs st @ map (\<lambda>i. Re (getEigenvalue e i)) (filter (\<lambda>i. \<not> Re (getEigenvalue e i) < 0) is),
        np_Vnegs := np_Vnegs st @ map (getEigenvector e) (filter (\<lambda>i. Re (getEigenvalue e i) < 0) is),
        np_DVnegs := np_DVnegs st @ map (\<lambda>i. vscale (- Re (getEigenvalue e i)) (getEigenvector e i))
            (filter (\<lambda>i. Re (getEigenvalue e i) < 0) is),
        np_invmusVnegs := np_invmusVnegs st @ map (\<lambda>i. vmul invmus (getEigenvector e i))
            (filter (\<lambda>i. Re (getEigenvalue e i) < 0) is)\<rparr>"
proof (induction "is" arbitrary: st)
  case Nil
  then show ?case by simp
next
  case (Cons i "is")
  show ?case
    by (simp add: Cons.IH) (simp add: negpart_step_def Let_def)
qed

lemma negpart_of_Vnegs: "np_Vnegs (negpart_of e invmus) = map (getEigenvector e) (negative_pairs e)"
  by (simp add: negpart_of_def negpart_foldl negative_pairs_def negpart_empty_def)

lemma negpart_of_Dnegs:
  "np_Dnegs (negpart_of e invmus) = map (\<lambda>i. - Re (getEigenvalue e i)) (negative_pairs e)"
  by (simp add: negpart_of_def negpart_foldl negative_pairs_def negpart_empty_def)

lemma negpart_of_DVnegs:
  "np_DVnegs (negpart_of e invmus) =
     map (\<lambda>i. vscale (- Re (getEigenvalue e i)) (getEigenvector e i)) (negative_pairs e)"
  by (simp add: negpart_of_def negpart_foldl negative_pairs_def negpart_empty_def)


lemma gamma_loop:
  "length g = k + length ds \<Longrightarrow>
   foldl (\<lambda>g (i, vec). g[i := f vec]) g (enumerate k ds) = take k g @ map f ds"
proof (induction ds arbitrary: k g)
  case Nil
  then show ?case by simp
next
  case (Cons d ds)
  from Cons.prems have len: "length (g[k := f d]) = Suc k + length ds" by simp
  from Cons.prems have "take (Suc k) (g[k := f d]) = take k g @ [f d]"
    by (simp add: take_Suc_conv_app_nth)
  with Cons.IH [OF len] show ?case by simp
qed

lemma axpy_loop:
  "length gs = k + length vs \<Longrightarrow>
   foldl (\<lambda>y (i, vec). axpy (gs ! i) vec y) z (enumerate k vs)
     = foldl vadd z (map2 vscale (drop k gs) vs)"
proof (induction vs arbitrary: k z)
  case Nil
  then show ?case by simp
next
  case (Cons v vs)
  from Cons.prems have len: "length gs = Suc k + length vs" by simp
  from Cons.prems have "drop k gs = gs ! k # drop (Suc k) gs"
    by (simp add: Cons_nth_drop_Suc)
  with Cons.IH [OF len] show ?case by (simp add: axpy_def)
qed

lemma Anegs_ctx_mult_sum:
  assumes "length (an_gamma c) = length (an_DVnegs c)" "length (an_Vnegs c) = length (an_DVnegs c)"
  shows "fst (Anegs_ctx_mult c x y)
           = vsum (length y) (map2 vscale (map (dot x) (an_DVnegs c)) (an_Vnegs c))"
proof -
  have g: "foldl (\<lambda>g (i, vec). g[i := dot x vec]) (an_gamma c) (enumerate 0 (an_DVnegs c))
           = map (dot x) (an_DVnegs c)"
    using gamma_loop [of "an_gamma c" 0 "an_DVnegs c" "dot x"] assms(1) by simp
  have "length (map (dot x) (an_DVnegs c)) = 0 + length (an_Vnegs c)"
    using assms(2) by simp
  from axpy_loop [OF this, of "vset 0 y"] show ?thesis
    by (simp add: Anegs_ctx_mult_def Let_def g vsum_def vset_zero)
qed

lemma Anegs_of_eps:
  "fst (Anegs_ctx_mult
         (Anegs_ctx_init (np_Vnegs (negpart_of e invmus)) (np_DVnegs (negpart_of e invmus))) x y)
     = Anegs_spec e (length y) x"
proof -
  let ?c = "Anegs_ctx_init (np_Vnegs (negpart_of e invmus)) (np_DVnegs (negpart_of e invmus))"
  have l1: "length (an_gamma ?c) = length (an_DVnegs ?c)"
    by (simp add: Anegs_ctx_init_def negpart_of_Vnegs negpart_of_DVnegs)
  have l2: "length (an_Vnegs ?c) = length (an_DVnegs ?c)"
    by (simp add: Anegs_ctx_init_def negpart_of_Vnegs negpart_of_DVnegs)
  have neg: "\<bar>Re (getEigenvalue e i)\<bar> = - Re (getEigenvalue e i)" if "i \<in> set (negative_pairs e)" for i
    using that by (simp add: negative_pairs_def)
  have "map2 vscale (map (dot x) (an_DVnegs ?c)) (an_Vnegs ?c)
        = map (\<lambda>i. vscale (dot x (vscale (- Re (getEigenvalue e i)) (getEigenvector e i)))
                  (getEigenvector e i)) (negative_pairs e)"
    by (simp add: Anegs_ctx_init_def negpart_of_Vnegs negpart_of_DVnegs zip_map_map
        zip_same_conv_map o_def split_def)
  also have "\<dots> = map (\<lambda>i. vscale (dot x (getEigenvector e i) * \<bar>Re (getEigenvalue e i)\<bar>)
                  (getEigenvector e i)) (negative_pairs e)"
    by (rule map_cong) (simp_all add: neg dot_commute [of x] mult.commute)
  finally show ?thesis
    by (simp only: Anegs_ctx_mult_sum [OF l1 l2] Anegs_spec_def)
qed


text \<open>
  Claim C5. For every local vector \<open>x\<close>, \<open>Anegs_ctx.mult\<close> on the lists \<open>PCNew.__init__\<close>
  fills computes \<open>\<Sum>\<^sub>i (x \<cdot> v\<^sub>i) \<lambda>\<^sub>i v\<^sub>i\<close>, the sum running over the converged eigenpairs of \<open>Bs\<close>
  with a negative eigenvalue and over no other, with \<open>\<lambda>\<^sub>i\<close> the magnitude of the eigenvalue:
  \<open>Dnegs\<close> holds the eigenvalues negated.
\<close>

theorem Anegs_sums_negative_eigenpairs:
  "fst (Anegs_ctx_mult (PCNew_Anegs e invmus) x y) = Anegs_spec e (length y) x
   \<and> np_Dnegs (negpart_of e invmus) = map (\<lambda>i. \<bar>Re (getEigenvalue e i)\<bar>) (negative_pairs e)
   \<and> np_Vnegs (negpart_of e invmus) = map (getEigenvector e) (negative_pairs e)
   \<and> set (negative_pairs e) = {i. i < getConverged e \<and> Re (getEigenvalue e i) < 0}"
proof -
  have "map (\<lambda>i. - Re (getEigenvalue e i)) (negative_pairs e)
        = map (\<lambda>i. \<bar>Re (getEigenvalue e i)\<bar>) (negative_pairs e)"
    by (rule map_cong) (simp_all add: negative_pairs_def)
  then have d: "np_Dnegs (negpart_of e invmus) = map (\<lambda>i. \<bar>Re (getEigenvalue e i)\<bar>) (negative_pairs e)"
    by (simp only: negpart_of_Dnegs)
  have s: "set (negative_pairs e) = {i. i < getConverged e \<and> Re (getEigenvalue e i) < 0}"
    by (auto simp: negative_pairs_def)
  have a: "fst (Anegs_ctx_mult (PCNew_Anegs e invmus) x y) = Anegs_spec e (length y) x"
    by (simp only: PCNew_Anegs_def Anegs_of_eps)
  have v: "np_Vnegs (negpart_of e invmus) = map (getEigenvector e) (negative_pairs e)"
    by (rule negpart_of_Vnegs)
  from a d v s show ?thesis by blast
qed

theorem Anegs_sums_negative_eigenpairs_witness:
  "fst (Anegs_ctx_mult
      (PCNew_Anegs \<lparr>getConverged = 2, getEigenvalue = (\<lambda>i. if i = 0 then - 2 else 3),
                    getEigenvector = (\<lambda>i. if i = 0 then [0, 1] else [1, 0])\<rparr> [1, 1])
      [5, 7] [0, 0]) = [0, 14]"
proof -
  let ?e = "\<lparr>getConverged = 2, getEigenvalue = (\<lambda>i. if i = 0 then - 2 else 3),
             getEigenvector = (\<lambda>i. if i = 0 then [0, 1] else [1, 0])\<rparr>"
  have n: "negative_pairs ?e = [0]"
    by (simp add: negative_pairs_def upt_conv_Cons)
  have "Anegs_spec ?e (length [0, 0 :: real]) [5, 7] = [0, 14]"
    by (simp add: Anegs_spec_def n vsum_def vadd_def vscale_def dot_def)
  with Anegs_sums_negative_eigenpairs [of ?e "[1, 1]" "[5, 7]" "[0, 0]"] show ?thesis
    by simp
qed

section \<open>The sign splitting of \<open>Bs\<close>\<close>





lemma dot_vscale_right [simp]: "dot w (vscale c a) = c * dot w a"
  using dot_vscale_left [of c a w] by (simp add: dot_commute [of w])


lemma length_mat_mult [simp]: "length (mat_mult A x) = length A"
  by (simp add: mat_mult_def)















section \<open>The application of the preconditioner\<close>

lemma PCBNN_mult_heap_y:
  assumes "x \<noteq> y" "x < nxt w" "y < nxt w"
  shows "heap (PCBNN_mult self x y w) y = apply_spec self (heap w x) (length (heap w y))"
  using assms
  by (simp add: PCBNN_mult_def apply_spec_def vec_copy_def in_place_def Let_def vset_zero)

lemma PCBNN_mult_frame:
  assumes "a \<noteq> y" "a < nxt w"
  shows "heap (PCBNN_mult self x y w) a = heap w a"
  using assms
  by (simp add: PCBNN_mult_def vec_copy_def in_place_def Let_def)

lemma PCNew_mult_frame:
  assumes "a \<noteq> y" "a < nxt w"
  shows "heap (PCNew_mult self x y w) a = heap w a"
  using assms
  by (simp add: PCNew_mult_def vec_copy_def in_place_def Let_def)

text \<open>
  Claim C3. For every input vector, \<open>PCBNN.mult\<close> leaves in \<open>y\<close> the result of the six
  steps: the transposed projection of \<open>x\<close> when the coarse projection is enabled, the move
  to the local vectors, the local solves, the move back with addition into the zeroed
  \<open>y\<close>, the projection of \<open>y\<close> when enabled, and, when the additive coarse solve is enabled,
  the addition of \<open>coarse_init\<close> of the original \<open>x\<close>. \<open>PCBNN.apply\<close> is that call. \<open>x\<close> and
  \<open>y\<close> are two vectors in use.
\<close>

theorem PCBNN_mult_six_steps:
  assumes "x \<noteq> y" and "x < nxt w" and "y < nxt w"
  shows "heap (PCBNN_mult self x y w) y = apply_spec self (heap w x) (length (heap w y))
       \<and> PCBNN_apply self p x y w = PCBNN_mult self x y w"
  using PCBNN_mult_heap_y [OF assms] by (simp add: PCBNN_apply_def)

theorem PCBNN_mult_six_steps_witness:
  "heap (PCBNN_mult
      \<lparr>projCS = True, addCS = True,
        proj = \<lparr>project = vscale 2, project_transpose = vscale 3, coarse_init = vscale 5\<rparr>,
        scatter_l2g = [[0, 1], [1, 2]], ksp_Atildes = [vscale 2, vscale 3]\<rparr>
      0 1
      \<lparr>heap = (\<lambda>a. if a = 0 then [1, 1, 1] else [9, 9, 9]), nxt = 2,
        works_1 = [[0, 0], [0, 0]], works_2 = [[0, 0], [0, 0]], stdout = []\<rparr>) 1
   = [17, 35, 23]"
proof -
  let ?P = "\<lparr>projCS = True, addCS = True,
        proj = \<lparr>project = vscale 2, project_transpose = vscale 3, coarse_init = vscale 5\<rparr>,
        scatter_l2g = [[0, 1], [1, 2]], ksp_Atildes = [vscale 2, vscale 3]\<rparr>"
  let ?W = "\<lparr>heap = (\<lambda>a. if a = 0 then [1, 1, 1] else [9, 9, 9]), nxt = 2,
        works_1 = [[0, 0], [0, 0]], works_2 = [[0, 0], [0, 0]], stdout = []\<rparr>"
  have s: "apply_spec ?P [1, 1, 1] 3 = [17, 35, 23]"
    by (simp add: apply_spec_def scatter_reverse_def solve_all_def scatter_add_def add_local_def
        vscale_def vadd_def numeral_3_eq_3 numeral_2_eq_2)
  have h: "heap ?W 0 = [1, 1, 1]" "length (heap ?W 1) = 3" by simp_all
  have "heap (PCBNN_mult ?P 0 1 ?W) 1 = apply_spec ?P (heap ?W 0) (length (heap ?W 1))
      \<and> PCBNN_apply ?P () 0 1 ?W = PCBNN_mult ?P 0 1 ?W"
    by (rule PCBNN_mult_six_steps) simp_all
  then have "heap (PCBNN_mult ?P 0 1 ?W) 1 = apply_spec ?P [1, 1, 1] 3"
    unfolding h by (rule conjunct1)
  then show ?thesis unfolding s .
qed

section \<open>The input vector of the application\<close>

text \<open>
  Claim C10. \<open>mult\<close> and \<open>apply\<close> of \<open>PCBNN\<close> and of \<open>PCNew\<close> never change the input vector:
  after the call \<open>x\<close> holds what it held before, whatever it held and whatever the flags,
  the in-place operations working on copies. More, every vector in use other than the
  output \<open>y\<close> is as before. \<open>x\<close> is a vector in use and not the object \<open>y\<close>.
\<close>

theorem mult_leaves_input_unchanged:
  assumes "x \<noteq> y" and "x < nxt w"
  shows "heap (PCBNN_mult self x y w) x = heap w x
       \<and> heap (PCBNN_apply self p x y w) x = heap w x
       \<and> heap (PCNew_mult self x y w) x = heap w x
       \<and> heap (PCNew_apply self p x y w) x = heap w x
       \<and> (\<forall>a. a \<noteq> y \<and> a < nxt w \<longrightarrow>
             heap (PCBNN_mult self x y w) a = heap w a \<and> heap (PCNew_mult self x y w) a = heap w a)"
  using assms
  by (simp add: PCBNN_apply_def PCNew_apply_def PCBNN_mult_frame PCNew_mult_frame)

theorem mult_leaves_input_unchanged_witness:
  "heap (PCBNN_mult
      \<lparr>projCS = True, addCS = True,
        proj = \<lparr>project = vscale 2, project_transpose = vscale 3, coarse_init = vscale 5\<rparr>,
        scatter_l2g = [[0, 1], [1, 2]], ksp_Atildes = [vscale 2, vscale 3]\<rparr>
      0 1
      \<lparr>heap = (\<lambda>a. if a = 0 then [1, 1, 1] else [9, 9, 9]), nxt = 2,
        works_1 = [[0, 0], [0, 0]], works_2 = [[0, 0], [0, 0]], stdout = []\<rparr>) 0
   = [1, 1, 1]
   \<and> heap (PCNew_mult
      \<lparr>projCS = True, addCS = True,
        proj = \<lparr>project = vscale 2, project_transpose = vscale 3, coarse_init = vscale 5\<rparr>,
        scatter_l2g = [[0, 1], [1, 2]], ksp_Atildes = [vscale 2, vscale 3]\<rparr>
      0 1
      \<lparr>heap = (\<lambda>a. if a = 0 then [1, 1, 1] else [9, 9, 9]), nxt = 2,
        works_1 = [[0, 0], [0, 0]], works_2 = [[0, 0], [0, 0]], stdout = []\<rparr>) 0
   = [1, 1, 1]"
proof -
  let ?P = "\<lparr>projCS = True, addCS = True,
        proj = \<lparr>project = vscale 2, project_transpose = vscale 3, coarse_init = vscale 5\<rparr>,
        scatter_l2g = [[0, 1], [1, 2]], ksp_Atildes = [vscale 2, vscale 3]\<rparr>"
  let ?W = "\<lparr>heap = (\<lambda>a. if a = 0 then [1, 1, 1] else [9, 9, 9]), nxt = 2,
        works_1 = [[0, 0], [0, 0]], works_2 = [[0, 0], [0, 0]], stdout = []\<rparr>"
  have h: "heap ?W 0 = [1, 1, 1]" by simp
  have "heap (PCBNN_mult ?P 0 1 ?W) 0 = heap ?W 0
       \<and> heap (PCBNN_apply ?P () 0 1 ?W) 0 = heap ?W 0
       \<and> heap (PCNew_mult ?P 0 1 ?W) 0 = heap ?W 0
       \<and> heap (PCNew_apply ?P () 0 1 ?W) 0 = heap ?W 0
       \<and> (\<forall>a. a \<noteq> 1 \<and> a < nxt ?W \<longrightarrow>
             heap (PCBNN_mult ?P 0 1 ?W) a = heap ?W a \<and> heap (PCNew_mult ?P 0 1 ?W) a = heap ?W a)"
    by (rule mult_leaves_input_unchanged) simp_all
  then have "heap (PCBNN_mult ?P 0 1 ?W) 0 = [1, 1, 1] \<and> heap (PCNew_mult ?P 0 1 ?W) 0 = [1, 1, 1]"
    unfolding h by blast
  then show ?thesis .
qed

section \<open>The multipreconditioner of the algebraic splitting\<close>

text \<open>
  Claim C2, as amended. \<open>PCNew.MP_mult\<close> is not implemented: it prints
  \<open>not implemented\<close> on every process and changes no vector, neither the output vectors
  nor \<open>x\<close> nor the work vectors. It does not run the algorithm of \<open>PCBNN.MP_mult\<close>.
\<close>

theorem PCNew_MP_mult_not_implemented:
  "heap (PCNew_MP_mult self x y w) = heap w
   \<and> works_1 (PCNew_MP_mult self x y w) = works_1 w
   \<and> works_2 (PCNew_MP_mult self x y w) = works_2 w
   \<and> stdout (PCNew_MP_mult self x y w)
       = stdout w @ replicate (length (scatter_l2g self)) ''not implemented''"
  by (simp add: PCNew_MP_mult_def)

text \<open>
  The claim as stated fails: one process with one degree of freedom, a local solve that
  doubles, projections that do nothing, \<open>x = (3)\<close> and the output vector \<open>(7)\<close>. The
  algorithm of \<open>PCBNN.MP_mult\<close> leaves \<open>(6)\<close> in the output vector; \<open>PCNew.MP_mult\<close> leaves
  \<open>(7)\<close> there.
\<close>

theorem PCNew_MP_mult_counterexample:
  "(case PCBNN_MP_mult
      \<lparr>projCS = True, addCS = False,
        proj = \<lparr>project = (\<lambda>v. v), project_transpose = (\<lambda>v. v), coarse_init = vset 0\<rparr>,
        scatter_l2g = [[0]], ksp_Atildes = [vscale 2]\<rparr>
      0 [1]
      \<lparr>heap = (\<lambda>a. if a = 0 then [3] else [7]), nxt = 2,
        works_1 = [[0]], works_2 = [[0]], stdout = []\<rparr>
    of Inr w \<Rightarrow> heap w 1 = [6] | Inl e \<Rightarrow> False)
   \<and> heap (PCNew_MP_mult
      \<lparr>projCS = True, addCS = False,
        proj = \<lparr>project = (\<lambda>v. v), project_transpose = (\<lambda>v. v), coarse_init = vset 0\<rparr>,
        scatter_l2g = [[0]], ksp_Atildes = [vscale 2]\<rparr>
      0 [1]
      \<lparr>heap = (\<lambda>a. if a = 0 then [3] else [7]), nxt = 2,
        works_1 = [[0]], works_2 = [[0]], stdout = []\<rparr>) 1 = [7]
   \<and> [6] \<noteq> [7 :: real]"
  by (simp add: PCBNN_MP_mult_def PCNew_MP_mult_def scatter_reverse_def solve_all_def
      scatter_add_def add_local_def in_place_def vscale_def vset_def Let_def)

section \<open>The construction of \<open>PCNew\<close>: the two degraded modes\<close>















section \<open>The partition of unity of \<open>PCBNN\<close>\<close>

lemma length_add_local [simp]: "length (add_local idx loc yg) = length yg"
proof -
  have "length (foldl (\<lambda>y (g, v). y[g := y ! g + v]) yg ps) = length yg" for ps
    by (induction ps arbitrary: yg) (simp_all add: split_def)
  then show ?thesis by (simp add: add_local_def)
qed

lemma add_local_ones:
  "g < length yg \<Longrightarrow>
   add_local idx (replicate (length idx) 1) yg ! g = yg ! g + real (count_list idx g)"
proof (induction idx arbitrary: yg)
  case Nil
  then show ?case by (simp add: add_local_def)
next
  case (Cons a idx)
  have step: "add_local (a # idx) (replicate (length (a # idx)) 1) yg
              = add_local idx (replicate (length idx) 1) (yg[a := yg ! a + 1])"
    by (simp add: add_local_def)
  from Cons.prems have len: "g < length (yg[a := yg ! a + 1])" by simp
  from Cons.prems have "yg[a := yg ! a + 1] ! g = (if a = g then yg ! g + 1 else yg ! g)"
    by (simp add: nth_list_update)
  with Cons.IH [OF len]
  have "add_local idx (replicate (length idx) 1) (yg[a := yg ! a + 1]) ! g
          = yg ! g + real (count_list (a # idx) g)"
    by simp
  then show ?case by (simp only: step)
qed

lemma scatter_add_ones:
  "g < length yg \<Longrightarrow>
   scatter_add idxs (map (\<lambda>idx. replicate (length idx) 1) idxs) yg ! g
     = yg ! g + (\<Sum>idx\<leftarrow>idxs. real (count_list idx g))"
proof (induction idxs arbitrary: yg)
  case Nil
  then show ?case by (simp add: scatter_add_def)
next
  case (Cons idx idxs)
  have step: "scatter_add (idx # idxs) (map (\<lambda>idx. replicate (length idx) 1) (idx # idxs)) yg
              = scatter_add idxs (map (\<lambda>idx. replicate (length idx) 1) idxs)
                  (add_local idx (replicate (length idx) 1) yg)"
    by (simp add: scatter_add_def)
  from Cons.prems have len: "g < length (add_local idx (replicate (length idx) 1) yg)" by simp
  from Cons.IH [OF len] add_local_ones [OF Cons.prems, of idx]
  have "scatter_add idxs (map (\<lambda>idx. replicate (length idx) 1) idxs)
          (add_local idx (replicate (length idx) 1) yg) ! g
        = yg ! g + (\<Sum>idx\<leftarrow>idx # idxs. real (count_list idx g))"
    by simp
  then show ?case by (simp only: step)
qed

lemma count_list_distinct: "distinct idx \<Longrightarrow> count_list idx g = (if g \<in> set idx then 1 else 0)"
  by (induction idx) auto

lemma sum_count_owners:
  "list_all distinct idxs \<Longrightarrow> (\<Sum>idx\<leftarrow>idxs. real (count_list idx g)) = real (owners idxs g)"
  by (induction idxs) (simp_all add: owners_def count_list_distinct)

lemma PCBNN_vglobal_owners:
  assumes "list_all distinct idxs" "g < N"
  shows "PCBNN_vglobal idxs N ! g = real (owners idxs g)"
proof -
  have ones: "vset 1 (replicate n 0) = replicate n 1" for n
    by (simp add: vset_def map_replicate_const)
  have "PCBNN_vglobal idxs N
        = scatter_add idxs (map (\<lambda>idx. replicate (length idx) 1) idxs) (replicate N 0)"
    by (simp add: PCBNN_vglobal_def ones vset_zero)
  with scatter_add_ones [of g "replicate N 0" idxs] assms(2) sum_count_owners [OF assms(1), of g]
  show ?thesis by simp
qed

lemma PCBNN_vlocal_owners:
  assumes "list_all distinct idxs" "s < length idxs" "i < length (idxs ! s)" "idxs ! s ! i < N"
  shows "PCBNN_vlocal idxs N ! s ! i = real (owners idxs (idxs ! s ! i))"
  using assms PCBNN_vglobal_owners [OF assms(1) assms(4)]
  by (simp add: PCBNN_vlocal_def scatter_reverse_def)

lemma diagonalScale_nth:
  assumes "i < length L" "i < length A" "j < length (A ! i)" "j < length R"
  shows "diagonalScale L R A ! i ! j = L ! i * A ! i ! j * R ! j"
  using assms by (simp add: diagonalScale_def)

lemma vdiv_nth: "i < length a \<Longrightarrow> i < length b \<Longrightarrow> vdiv a b ! i = a ! i / b ! i"
  by (simp add: vdiv_def)

lemma getDiagonal_nth: "i < length A \<Longrightarrow> getDiagonal A ! i = A ! i ! i"
  by (simp add: getDiagonal_def)

lemma length_getDiagonal [simp]: "length (getDiagonal A) = length A"
  by (simp add: getDiagonal_def)

lemma length_vdiv [simp]: "length (vdiv a b) = min (length a) (length b)"
  by (simp add: vdiv_def)

text \<open>
  Claim C1, as amended. The multiplicity vector holds, at each local degree of freedom,
  the number of subdomains that own it. When multiplicity scaling is selected
  (\<open>PCBNN_kscaling\<close> false) the local matrix \<open>Ms\<close> is scaled on each side by the multiplicity
  itself, not by its inverse: entry \<open>(i, j)\<close> becomes \<open>m\<^sub>i Ms\<^sub>i\<^sub>j m\<^sub>j\<close>. When k-scaling is
  selected, which is the default, \<open>Ms\<close> is scaled on each side by the ratio of the diagonal
  of \<open>As\<close> to the diagonal of \<open>Ms\<close>. The index set of a subdomain lists each of its degrees
  of freedom once.
\<close>

theorem PCBNN_partition_of_unity:
  assumes "list_all distinct idxs" and "s < length idxs"
    and "list_all (\<lambda>g. g < N) (idxs ! s)" and "length (idxs ! s) = n"
    and "length Ms = n" and "list_all (\<lambda>row. length row = n) Ms" and "length As = n"
    and "i < n" and "j < n"
  shows "PCBNN_vlocal idxs N ! s ! i = real (owners idxs (idxs ! s ! i))
       \<and> PCBNN_scaled_Ms False Ms As (PCBNN_vlocal idxs N ! s) ! i ! j
           = real (owners idxs (idxs ! s ! i)) * Ms ! i ! j * real (owners idxs (idxs ! s ! j))
       \<and> PCBNN_scaled_Ms True Ms As (PCBNN_vlocal idxs N ! s) ! i ! j
           = (As ! i ! i / Ms ! i ! i) * Ms ! i ! j * (As ! j ! j / Ms ! j ! j)
       \<and> (opt_bool OptDB ''PCBNN_kscaling'' = None \<longrightarrow> PCBNN_kscaling OptDB = True)"
proof -
  let ?m = "PCBNN_vlocal idxs N ! s"
  have own: "?m ! k = real (owners idxs (idxs ! s ! k))" if "k < n" for k
  proof -
    from that assms(3,4) have "idxs ! s ! k < N" by (simp add: list_all_length)
    with that assms(4) show ?thesis
      by (intro PCBNN_vlocal_owners assms(1,2)) simp_all
  qed
  have lm: "length ?m = n"
    using assms(2,4) by (simp add: PCBNN_vlocal_def scatter_reverse_def)
  have row: "length (Ms ! i) = n"
    using assms(5,6,8) by (simp add: list_all_length)
  have a: "PCBNN_scaled_Ms False Ms As ?m ! i ! j = ?m ! i * Ms ! i ! j * ?m ! j"
    using lm row assms(5,8,9) by (simp add: PCBNN_scaled_Ms_def diagonalScale_nth)
  have b: "PCBNN_scaled_Ms True Ms As ?m ! i ! j
           = (As ! i ! i / Ms ! i ! i) * Ms ! i ! j * (As ! j ! j / Ms ! j ! j)"
    using row assms(5,7,8,9)
    by (simp add: PCBNN_scaled_Ms_def Let_def diagonalScale_nth vdiv_nth getDiagonal_nth)
  have c: "opt_bool OptDB ''PCBNN_kscaling'' = None \<longrightarrow> PCBNN_kscaling OptDB = True"
    by (simp add: PCBNN_kscaling_def getBool_def)
  from own [OF assms(8)] own [OF assms(9)] a b c show ?thesis by simp
qed

theorem PCBNN_partition_of_unity_witness:
  "PCBNN_vlocal [[0, 1], [1, 2]] 3 ! 0 ! 1 = 2
   \<and> owners [[0, 1], [1, 2]] 1 = 2
   \<and> PCBNN_scaled_Ms False [[1, 3], [3, 5]] [[1, 3], [3, 10]] (PCBNN_vlocal [[0, 1], [1, 2]] 3 ! 0) ! 1 ! 0 = 6
   \<and> PCBNN_scaled_Ms True [[1, 3], [3, 5]] [[1, 3], [3, 10]] (PCBNN_vlocal [[0, 1], [1, 2]] 3 ! 0) ! 1 ! 0 = 6
   \<and> PCBNN_kscaling \<lparr>opt_bool = (\<lambda>n. None), opt_int = (\<lambda>n. None)\<rparr> = True"
proof -
  let ?idxs = "[[0, 1], [1, 2 :: nat]]"
  let ?Ms = "[[1, 3], [3, 5 :: real]]"
  let ?As = "[[1, 3], [3, 10 :: real]]"
  let ?O = "\<lparr>opt_bool = (\<lambda>n. None), opt_int = (\<lambda>n. None)\<rparr>"
  have o: "owners ?idxs 0 = 1" "owners ?idxs 1 = 2"
    by (simp_all add: owners_def)
  have e: "?idxs ! 0 ! 1 = 1" "?idxs ! 0 ! 0 = 0" "?Ms ! 1 ! 0 = 3" "?As ! 1 ! 1 = 10" "?Ms ! 1 ! 1 = 5"
      "?As ! 0 ! 0 = 1" "?Ms ! 0 ! 0 = 1" "opt_bool ?O ''PCBNN_kscaling'' = None"
    by simp_all
  have t: "PCBNN_vlocal ?idxs 3 ! 0 ! 1 = real (owners ?idxs (?idxs ! 0 ! 1))
       \<and> PCBNN_scaled_Ms False ?Ms ?As (PCBNN_vlocal ?idxs 3 ! 0) ! 1 ! 0
           = real (owners ?idxs (?idxs ! 0 ! 1)) * ?Ms ! 1 ! 0 * real (owners ?idxs (?idxs ! 0 ! 0))
       \<and> PCBNN_scaled_Ms True ?Ms ?As (PCBNN_vlocal ?idxs 3 ! 0) ! 1 ! 0
           = (?As ! 1 ! 1 / ?Ms ! 1 ! 1) * ?Ms ! 1 ! 0 * (?As ! 0 ! 0 / ?Ms ! 0 ! 0)
       \<and> (opt_bool ?O ''PCBNN_kscaling'' = None \<longrightarrow> PCBNN_kscaling ?O = True)"
    by (rule PCBNN_partition_of_unity [where n = 2]) simp_all
  then have "PCBNN_vlocal ?idxs 3 ! 0 ! 1 = 2
       \<and> PCBNN_scaled_Ms False ?Ms ?As (PCBNN_vlocal ?idxs 3 ! 0) ! 1 ! 0 = 6
       \<and> PCBNN_scaled_Ms True ?Ms ?As (PCBNN_vlocal ?idxs 3 ! 0) ! 1 ! 0 = 6
       \<and> PCBNN_kscaling ?O = True"
    unfolding e o by simp
  with o(2) show ?thesis by blast
qed

text \<open>
  The claim as stated fails: two subdomains that share their one degree of freedom, so
  that its multiplicity is 2, and \<open>Ms = (3)\<close>. The code leaves \<open>Ms = (12)\<close>, the scaling by
  \<open>1 / multiplicity\<close> would leave \<open>(3 / 4)\<close>.
\<close>

theorem PCBNN_multiplicity_scaling_counterexample:
  "PCBNN_vlocal [[0], [0]] 1 ! 0 = [2]
   \<and> PCBNN_scaled_Ms False [[3]] [[6]] (PCBNN_vlocal [[0], [0]] 1 ! 0) = [[12]]
   \<and> multiplicity_scaling_spec [[3]] (PCBNN_vlocal [[0], [0]] 1 ! 0) = [[3 / 4]]
   \<and> PCBNN_scaled_Ms False [[3]] [[6]] (PCBNN_vlocal [[0], [0]] 1 ! 0)
       \<noteq> multiplicity_scaling_spec [[3]] (PCBNN_vlocal [[0], [0]] 1 ! 0)"
proof -
  have v: "PCBNN_vlocal [[0], [0]] 1 ! 0 = [2]"
    by (simp add: PCBNN_vlocal_def PCBNN_vglobal_def scatter_reverse_def scatter_add_def
        add_local_def vset_def)
  have a: "PCBNN_scaled_Ms False [[3]] [[6]] [2] = [[12]]"
    by (simp add: PCBNN_scaled_Ms_def diagonalScale_def)
  have b: "multiplicity_scaling_spec [[3]] [2] = [[3 / 4]]"
    by (simp add: multiplicity_scaling_spec_def diagonalScale_def vrecip_def)
  show ?thesis unfolding v a b by simp
qed

end
